theory Spec2Isabelle
  imports Main
begin

section \<open>The cheat-code element: data\<close>

text \<open>
  The model follows \<^verbatim>\<open>src/cheat-code.js\<close>. An entry of the sequence buffer is either the
  \<^verbatim>\<open>key\<close> string of a keyboard event (pushed by \<^verbatim>\<open>checkCode\<close>) or the numeric
  index of a gamepad button (pushed by \<^verbatim>\<open>buttonPressed\<close>).
\<close>

datatype symbol = Key string | Button nat

text \<open>The three methods the constructor binds, as they appear in listener lists.\<close>

datatype handler = KeyboardInit | GamepadConnected | GamepadDisconnected

datatype error = TypeError

text \<open>
  The receiver of a method call: the element itself, or \<^verbatim>\<open>undefined\<close> when a method
  that was not bound is invoked as a plain callback (class bodies are strict code).
\<close>

datatype receiver = This | Undefined

text \<open>
  A gamepad as the element reads it: its \<^verbatim>\<open>index\<close> and the \<^verbatim>\<open>pressed\<close> flag of each
  entry of \<^verbatim>\<open>buttons\<close>. (The name and the axes are only logged.)
\<close>

record gamepad =
  index :: nat
  buttons :: "bool list"

text \<open>
  The state is the element's own fields followed by the part of the host page the element
  acts on.

  \<^item> \<open>gamepads\<close> is the object \<^verbatim>\<open>this.gamepads\<close>; all its values are \<^verbatim>\<open>true\<close>, so it is
    kept as the list of its keys in the order \<^verbatim>\<open>Object.keys\<close> enumerates integer keys
    (ascending).
  \<^item> \<open>buttonState\<close> is the object \<^verbatim>\<open>this.buttonState\<close>, whose values are all \<^verbatim>\<open>true\<close>:
    the set of its keys.
  \<^item> \<open>lastEntryTime\<close> and \<open>now\<close> hold a number or \<^verbatim>\<open>undefined\<close> (\<open>None\<close>). The class
    never assigns \<^verbatim>\<open>this.now\<close>.
  \<^item> \<open>documentListeners\<close> and \<open>windowListeners\<close> are the event listener lists of
    \<^verbatim>\<open>document\<close> and \<^verbatim>\<open>window\<close> (an event target holds a given type and callback at
    most once), \<open>intervals\<close> the active \<^verbatim>\<open>setInterval\<close> timers with the arguments their
    callback passes to \<^verbatim>\<open>fireConfetti\<close>, \<open>frameRequests\<close> the number of pending
    \<^verbatim>\<open>requestAnimationFrame\<close> callbacks, \<open>uncaught\<close> the exceptions that escaped a
    callback and were reported by the host.
  \<^item> \<open>loadConfettiCalls\<close> and \<open>confettiCalls\<close> count the calls of \<^verbatim>\<open>loadConfetti\<close> and of
    \<^verbatim>\<open>confetti\<close>; they are observations, not fields of the source.
\<close>

record state =
  pattern :: string
  type :: string
  timeLimit :: int
  duration :: int
  gamepads :: "nat list"
  buttonState :: "nat set"
  entries :: "symbol list"
  lastEntryTime :: "int option"
  timer :: nat
  now :: "int option"
  documentListeners :: "(string \<times> handler) set"
  windowListeners :: "(string \<times> handler) set"
  intervals :: "(nat \<times> int \<times> int) list"
  nextIntervalId :: nat
  frameRequests :: nat
  uncaught :: "error list"
  loadConfettiCalls :: nat
  confettiCalls :: nat

section \<open>Pattern presets and the current code\<close>

definition patternMatcher :: "string \<Rightarrow> string" where
  "patternMatcher p =
     (if p = ''starpower'' then ''7 1 7 0 7 2 7 3 6''
      else if p = ''konamicode'' then
        ''ArrowUp ArrowUp ArrowDown ArrowDown ArrowLeft ArrowRight ArrowLeft ArrowRight b a Enter''
      else p)"

text \<open>The decimal numeral of a button index, as \<^verbatim>\<open>join\<close> converts a number to a string.\<close>

function decimal :: "nat \<Rightarrow> string" where
  "decimal n =
     (if n < 10 then [''0123456789'' ! n]
      else decimal (n div 10) @ [''0123456789'' ! (n mod 10)])"
  by pat_completeness auto
termination
  by (relation "measure id") auto

declare decimal.simps [simp del]

fun toString :: "symbol \<Rightarrow> string" where
  "toString (Key k) = k"
| "toString (Button n) = decimal n"

text \<open>\<^verbatim>\<open>Array.prototype.join\<close> on strings.\<close>

fun join :: "string \<Rightarrow> string list \<Rightarrow> string" where
  "join sep [] = []"
| "join sep [x] = x"
| "join sep (x # y # ys) = x @ sep @ join sep (y # ys)"

definition currentCode :: "state \<Rightarrow> string" where
  "currentCode s = join '' '' (map toString (entries s))"

definition gamepadIndexes :: "state \<Rightarrow> nat list" where
  "gamepadIndexes s = gamepads s"

section \<open>Construction and the listeners\<close>

text \<open>A freshly constructed element, at clock reading \<open>t\<close>, on a page with no listeners.\<close>

definition constructor :: "int \<Rightarrow> state" where
  "constructor t =
     \<lparr> pattern = patternMatcher ''konamicode'',
       type = ''keyboard'',
       timeLimit = 1000,
       duration = 10,
       gamepads = [],
       buttonState = {},
       entries = [],
       lastEntryTime = Some t,
       timer = 0,
       now = None,
       documentListeners = {},
       windowListeners = {},
       intervals = [],
       nextIntervalId = 1,
       frameRequests = 0,
       uncaught = [],
       loadConfettiCalls = 0,
       confettiCalls = 0 \<rparr>"

definition listen :: "state \<Rightarrow> state" where
  "listen s =
     (if type s = ''gamepad'' then
        s\<lparr>windowListeners :=
            insert (''gamepaddisconnected'', GamepadDisconnected)
              (insert (''gamepadconnected'', GamepadConnected) (windowListeners s))\<rparr>
      else s\<lparr>documentListeners := insert (''keydown'', KeyboardInit) (documentListeners s)\<rparr>)"

definition destroy :: "state \<Rightarrow> state" where
  "destroy s =
     (if type s = ''gamepad'' then
        s\<lparr>windowListeners :=
            windowListeners s - {(''gamepadconnected'', GamepadConnected)}
              - {(''gamepaddisconnected'', GamepadDisconnected)}\<rparr>
      else s\<lparr>documentListeners := documentListeners s - {(''keydown'', KeyboardInit)}\<rparr>)"

section \<open>The confetti reaction\<close>

text \<open>
  Every handler below takes the reading of \<^verbatim>\<open>Date.now()\<close> as its first argument \<open>t\<close>; one
  invocation of a handler is taken to run within one reading of the clock.
\<close>

definition loadConfetti :: "int \<Rightarrow> state \<Rightarrow> state" where
  "loadConfetti t s =
     (let d = duration s * 1000;
          animationEnd = t + d;
          i = nextIntervalId s
      in s\<lparr>timer := i,
            intervals := intervals s @ [(i, d, animationEnd)],
            nextIntervalId := Suc i,
            loadConfettiCalls := Suc (loadConfettiCalls s)\<rparr>)"

definition clearInterval :: "nat \<Rightarrow> state \<Rightarrow> state" where
  "clearInterval i s = s\<lparr>intervals := filter (\<lambda>(j, d, e). j \<noteq> i) (intervals s)\<rparr>"

definition fireConfetti :: "int \<Rightarrow> int \<Rightarrow> int \<Rightarrow> state \<Rightarrow> state" where
  "fireConfetti t d e s =
     (let timeLeft = e - t;
          s1 = (if timeLeft \<le> 0 then destroy (clearInterval (timer s) s) else s)
      in s1\<lparr>confettiCalls := confettiCalls s1 + 2\<rparr>)"

text \<open>The host runs the callback of interval \<open>i\<close>, if that interval is still active.\<close>

definition intervalTick :: "int \<Rightarrow> nat \<Rightarrow> state \<Rightarrow> state" where
  "intervalTick t i s =
     (case find (\<lambda>(j, d, e). j = i) (intervals s) of
        None \<Rightarrow> s
      | Some (j, d, e) \<Rightarrow> fireConfetti t d e s)"

section \<open>The keyboard path\<close>

text \<open>
  With \<^verbatim>\<open>lastEntryTime\<close> undefined the difference is \<^verbatim>\<open>NaN\<close> and the comparison is false.
\<close>

definition checkTime :: "int \<Rightarrow> state \<Rightarrow> state" where
  "checkTime t s =
     (case lastEntryTime s of
        None \<Rightarrow> s
      | Some l \<Rightarrow> if t - l > timeLimit s then s\<lparr>entries := []\<rparr> else s)"

text \<open>A key is truthy when it is present and not the empty string.\<close>

definition truthy :: "string option \<Rightarrow> bool" where
  "truthy key = (case key of None \<Rightarrow> False | Some k \<Rightarrow> k \<noteq> [])"

definition checkCode :: "int \<Rightarrow> string option \<Rightarrow> state \<Rightarrow> state" where
  "checkCode t key s =
     (if truthy key then
        (let s1 = s\<lparr>entries := entries s @ [Key (the key)]\<rparr>;
             s2 = s1\<lparr>lastEntryTime := Some t\<rparr>
         in if currentCode s2 = pattern s2 then loadConfetti t s2 else s2)
      else s)"

definition keyboardInit :: "int \<Rightarrow> string option \<Rightarrow> state \<Rightarrow> state" where
  "keyboardInit t key s = checkCode t key (checkTime t s)"

text \<open>A run of key-down notifications handled by the element, each with its clock reading.\<close>

fun keyboardInits :: "(int \<times> string option) list \<Rightarrow> state \<Rightarrow> state" where
  "keyboardInits [] s = s"
| "keyboardInits ((t, key) # es) s = keyboardInits es (keyboardInit t key s)"

section \<open>The gamepad path\<close>

definition buttonPressed :: "int \<Rightarrow> nat \<Rightarrow> state \<Rightarrow> state" where
  "buttonPressed t i s =
     (let s1 = checkTime t s;
          s2 = s1\<lparr>entries := entries s1 @ [Button i]\<rparr>;
          s3 = s2\<lparr>lastEntryTime := now s2\<rparr>
      in if currentCode s3 = pattern s3 then loadConfetti t s3 else s3)"

text \<open>The body of the inner \<^verbatim>\<open>forEach\<close>: one button, with its position in \<^verbatim>\<open>buttons\<close>.\<close>

definition forEachButton :: "int \<Rightarrow> state \<Rightarrow> nat \<times> bool \<Rightarrow> state" where
  "forEachButton t s b =
     (case b of (i, pressed) \<Rightarrow>
        if pressed then
          (if i \<notin> buttonState s
           then buttonPressed t i (s\<lparr>buttonState := insert i (buttonState s)\<rparr>)
           else s)
        else s\<lparr>buttonState := buttonState s - {i}\<rparr>)"

text \<open>
  The body of the outer \<^verbatim>\<open>forEach\<close>: \<open>item\<close> is a key of \<^verbatim>\<open>this.gamepads\<close> (a non-empty
  string, hence truthy) and \<open>i\<close> its position in the list of keys; \<open>pads\<close> is what
  \<^verbatim>\<open>navigator.getGamepads()\<close> returns, an array of gamepads and \<^verbatim>\<open>null\<close>s, read at
  position \<open>i\<close>.
\<close>

definition forEachGamepad :: "int \<Rightarrow> gamepad option list \<Rightarrow> state \<Rightarrow> nat \<times> nat \<Rightarrow> state" where
  "forEachGamepad t pads s g =
     (case g of (i, item) \<Rightarrow>
        if i < length pads then
          (case pads ! i of
             None \<Rightarrow> s
           | Some pad \<Rightarrow> foldl (forEachButton t) s (enumerate 0 (buttons pad)))
        else s)"

text \<open>
  \<^verbatim>\<open>readGamepadValues\<close> is the one callback the constructor does not bind. Called as a method
  (by \<^verbatim>\<open>gamepadConnected\<close>) its receiver is the element; called by the host as the
  animation-frame callback its receiver is \<^verbatim>\<open>undefined\<close>, and reading
  \<^verbatim>\<open>this.gamepadIndexes\<close> throws.
\<close>

definition readGamepadValues ::
    "receiver \<Rightarrow> int \<Rightarrow> gamepad option list \<Rightarrow> state \<Rightarrow> error + state" where
  "readGamepadValues this t pads s =
     (case this of
        Undefined \<Rightarrow> Inl TypeError
      | This \<Rightarrow>
          (let s1 = foldl (forEachGamepad t pads) s (enumerate 0 (gamepadIndexes s))
           in if length (gamepadIndexes s1) > 0
              then Inr (s1\<lparr>frameRequests := Suc (frameRequests s1)\<rparr>)
              else Inr s1))"

text \<open>\<^verbatim>\<open>this.gamepads[gamepad.index] = true\<close> and \<^verbatim>\<open>delete this.gamepads[gamepad.index]\<close>.\<close>

definition setKey :: "nat \<Rightarrow> nat list \<Rightarrow> nat list" where
  "setKey i ks = (if i \<in> set ks then ks else insort i ks)"

definition deleteKey :: "nat \<Rightarrow> nat list \<Rightarrow> nat list" where
  "deleteKey i ks = removeAll i ks"

definition gamepadConnected ::
    "int \<Rightarrow> gamepad option list \<Rightarrow> gamepad option \<Rightarrow> state \<Rightarrow> error + state" where
  "gamepadConnected t pads ev s =
     (case ev of
        None \<Rightarrow> Inr s
      | Some pad \<Rightarrow>
          readGamepadValues This t pads (s\<lparr>gamepads := setKey (index pad) (gamepads s)\<rparr>))"

definition gamepadDisconnected :: "gamepad option \<Rightarrow> state \<Rightarrow> state" where
  "gamepadDisconnected ev s =
     (case ev of
        None \<Rightarrow> s
      | Some pad \<Rightarrow> s\<lparr>gamepads := deleteKey (index pad) (gamepads s)\<rparr>)"

text \<open>
  The host runs one pending animation-frame callback: the function
  \<^verbatim>\<open>this.readGamepadValues\<close> that was handed to \<^verbatim>\<open>requestAnimationFrame\<close>, without a
  receiver. An exception that escapes the callback is reported and the state stays as the
  callback left it.
\<close>

definition animationFrame :: "int \<Rightarrow> gamepad option list \<Rightarrow> state \<Rightarrow> state" where
  "animationFrame t pads s =
     (if frameRequests s = 0 then s
      else
        (let s1 = s\<lparr>frameRequests := frameRequests s - 1\<rparr>
         in case readGamepadValues Undefined t pads s1 of
              Inl e \<Rightarrow> s1\<lparr>uncaught := uncaught s1 @ [e]\<rparr>
            | Inr s2 \<Rightarrow> s2))"

section \<open>The host page\<close>

text \<open>
  What the page can do to the element: deliver a key-down or a gamepad notification (it
  reaches the element only through a registered listener), run a pending animation-frame
  callback, or run the callback of an interval timer. The gamepad notifications carry what
  \<^verbatim>\<open>navigator.getGamepads()\<close> returns at that moment. \<^verbatim>\<open>gamepadConnected\<close> is bound, so its
  call of \<^verbatim>\<open>readGamepadValues\<close> has the element as receiver and does not throw.
\<close>

datatype event =
    Keydown int "string option"
  | Gamepadconnected int "gamepad option list" "gamepad option"
  | Gamepaddisconnected "gamepad option"
  | AnimationFrame int "gamepad option list"
  | IntervalTick int nat

fun dispatch :: "state \<Rightarrow> event \<Rightarrow> state" where
  "dispatch s (Keydown t key) =
     (if (''keydown'', KeyboardInit) \<in> documentListeners s then keyboardInit t key s else s)"
| "dispatch s (Gamepadconnected t pads ev) =
     (if (''gamepadconnected'', GamepadConnected) \<in> windowListeners s then
        (case gamepadConnected t pads ev s of
           Inl e \<Rightarrow> s\<lparr>uncaught := uncaught s @ [e]\<rparr>
         | Inr s' \<Rightarrow> s')
      else s)"
| "dispatch s (Gamepaddisconnected ev) =
     (if (''gamepaddisconnected'', GamepadDisconnected) \<in> windowListeners s
      then gamepadDisconnected ev s else s)"
| "dispatch s (AnimationFrame t pads) = animationFrame t pads s"
| "dispatch s (IntervalTick t i) = intervalTick t i s"

definition run :: "event list \<Rightarrow> state \<Rightarrow> state" where
  "run es s = foldl dispatch s es"

text \<open>
  The detector accepts a symbol through the handler of its source: a key through
  \<^verbatim>\<open>keyboardInit\<close>, with that key in the event, and a button index through
  \<^verbatim>\<open>buttonPressed\<close>. \<open>accepts\<close> is a run of accepted symbols, each with its clock reading.
\<close>

definition accept :: "int \<Rightarrow> symbol \<Rightarrow> state \<Rightarrow> state" where
  "accept t x s =
     (case x of
        Key k \<Rightarrow> keyboardInit t (Some k) s
      | Button i \<Rightarrow> buttonPressed t i s)"

fun accepts :: "(int \<times> symbol) list \<Rightarrow> state \<Rightarrow> state" where
  "accepts [] s = s"
| "accepts ((t, x) # es) s = accepts es (accept t x s)"

text \<open>A gamepad with ten buttons, of which those listed are pressed.\<close>

definition pad :: "nat \<Rightarrow> nat list \<Rightarrow> gamepad" where
  "pad i pressed = \<lparr>index = i, buttons = map (\<lambda>b. b \<in> set pressed) [0, 1, 2, 3, 4, 5, 6, 7, 8, 9]\<rparr>"

text \<open>An element constructed at time 0, given its type and pattern attributes, and connected to
  the page (\<^verbatim>\<open>connectedCallback\<close> calls \<^verbatim>\<open>listen\<close>).\<close>

definition mounted :: "string \<Rightarrow> string \<Rightarrow> state" where
  "mounted ty p = listen ((constructor 0)\<lparr>type := ty, pattern := patternMatcher p\<rparr>)"

section \<open>Preset resolution\<close>

text \<open>
  C5. Preset resolution is total: \<^verbatim>\<open>starpower\<close> and \<^verbatim>\<open>konamicode\<close> resolve to their fixed
  patterns, and every other string is returned unchanged.
\<close>

theorem patternMatcher_presets:
  "patternMatcher ''starpower'' = ''7 1 7 0 7 2 7 3 6''
   \<and> patternMatcher ''konamicode'' =
       ''ArrowUp ArrowUp ArrowDown ArrowDown ArrowLeft ArrowRight ArrowLeft ArrowRight b a Enter''
   \<and> (p \<noteq> ''starpower'' \<and> p \<noteq> ''konamicode'' \<longrightarrow> patternMatcher p = p)"
  by (simp add: patternMatcher_def)

theorem patternMatcher_presets_witness:
  "''unknown-xyz'' \<noteq> ''starpower'' \<and> ''unknown-xyz'' \<noteq> ''konamicode''
   \<and> patternMatcher ''unknown-xyz'' = ''unknown-xyz''"
  using patternMatcher_presets [of "''unknown-xyz''"] by simp

section \<open>Runs of accepted symbols\<close>

text \<open>
  The serialized buffer grows strictly with every entry after the first, so the code of a
  proper, non-empty prefix of a symbol sequence differs from the code of the whole sequence.
\<close>

lemma join_append:
  "xs \<noteq> [] \<Longrightarrow> ys \<noteq> [] \<Longrightarrow> join sep (xs @ ys) = join sep xs @ sep @ join sep ys"
proof (induction sep xs rule: join.induct)
  case (1 sep)
  then show ?case by simp
next
  case (2 sep x)
  then show ?case by (cases ys) simp_all
next
  case (3 sep x y ys)
  then show ?case by simp
qed

lemma join_prefix_neq:
  assumes "0 < n" "n < length ks" "sep \<noteq> []"
  shows "join sep (take n ks) \<noteq> join sep ks"
proof -
  have "take n ks \<noteq> []" "drop n ks \<noteq> []" using assms by auto
  then have "join sep (take n ks @ drop n ks) = join sep (take n ks) @ sep @ join sep (drop n ks)"
    by (rule join_append)
  then have "length (join sep ks) > length (join sep (take n ks))"
    using assms(3) by simp
  then show ?thesis by auto
qed

lemma map_toString_Key: "map (toString \<circ> Key) ks = ks"
  by (induction ks) simp_all

lemma checkTime_idem: "checkTime t (checkTime t s) = checkTime t s"
  by (simp add: checkTime_def split: option.splits)

lemma checkTime_fields [simp]:
  "pattern (checkTime t s) = pattern s"
  "timeLimit (checkTime t s) = timeLimit s"
  "now (checkTime t s) = now s"
  "loadConfettiCalls (checkTime t s) = loadConfettiCalls s"
  by (simp_all add: checkTime_def split: option.splits)

lemma loadConfettiCalls_loadConfetti [simp]:
  "loadConfettiCalls (loadConfetti t s) = Suc (loadConfettiCalls s)"
  by (simp add: loadConfetti_def Let_def)

lemma accept_checkTime: "accept t x (checkTime t s) = accept t x s"
  by (cases x) (simp_all add: accept_def keyboardInit_def buttonPressed_def checkTime_idem)

lemma accepts_checkTime:
  "es \<noteq> [] \<Longrightarrow> accepts es (checkTime (fst (hd es)) s) = accepts es s"
  by (cases es) (auto simp: accept_checkTime)

lemma accepts_append: "accepts (es @ fs) s = accepts fs (accepts es s)"
  by (induction es s rule: accepts.induct) simp_all

lemma accept_step:
  assumes "\<forall>k. x = Key k \<longrightarrow> k \<noteq> []" and "checkTime t s = s"
  shows "entries (accept t x s) = entries s @ [x]"
    and "pattern (accept t x s) = pattern s"
    and "timeLimit (accept t x s) = timeLimit s"
    and "now (accept t x s) = now s"
    and "lastEntryTime (accept t x s) = (case x of Key k \<Rightarrow> Some t | Button i \<Rightarrow> now s)"
    and "loadConfettiCalls (accept t x s) =
           (if join '' '' (map toString (entries s @ [x])) = pattern s
            then Suc (loadConfettiCalls s) else loadConfettiCalls s)"
  using assms
  by (simp_all add: accept_def keyboardInit_def checkCode_def buttonPressed_def truthy_def
      currentCode_def loadConfetti_def Let_def split: symbol.splits)

lemma checkTime_next:
  assumes "lastEntryTime s = None \<or> (\<exists>l. lastEntryTime s = Some l \<and> t - l \<le> timeLimit s)"
  shows "checkTime t s = s"
  using assms by (auto simp: checkTime_def)

lemma accepts_no_match:
  assumes "length ts = length xs" and "\<forall>k. Key k \<in> set xs \<longrightarrow> k \<noteq> []"
    and "successively (\<lambda>a b. b - a \<le> timeLimit s) ts"
    and "ts \<noteq> [] \<longrightarrow> checkTime (hd ts) s = s"
    and "\<forall>i. Button i \<in> set xs \<longrightarrow> now s = None"
    and "\<forall>n. 0 < n \<and> n \<le> length xs \<longrightarrow>
           join '' '' (map toString (entries s @ take n xs)) \<noteq> pattern s"
  shows "entries (accepts (zip ts xs) s) = entries s @ xs
         \<and> loadConfettiCalls (accepts (zip ts xs) s) = loadConfettiCalls s
         \<and> pattern (accepts (zip ts xs) s) = pattern s
         \<and> timeLimit (accepts (zip ts xs) s) = timeLimit s
         \<and> (xs \<noteq> [] \<longrightarrow> lastEntryTime (accepts (zip ts xs) s) = None
                \<or> lastEntryTime (accepts (zip ts xs) s) = Some (last ts))"
  using assms
proof (induction xs arbitrary: ts s)
  case Nil
  then show ?case by simp
next
  case (Cons x xs)
  then obtain t ts' where ts: "ts = t # ts'" by (cases ts) auto
  let ?s1 = "accept t x s"
  have tr: "\<forall>k. x = Key k \<longrightarrow> k \<noteq> []" using Cons.prems(2) by simp
  have ct: "checkTime t s = s" using Cons.prems(4) ts by simp
  note st = accept_step [OF tr ct]
  have "join '' '' (map toString (entries s @ take 1 (x # xs))) \<noteq> pattern s"
    using Cons.prems(6) [rule_format, of 1] by simp
  then have c1: "loadConfettiCalls ?s1 = loadConfettiCalls s" using st(6) by simp
  have l1: "lastEntryTime ?s1 = None \<or> lastEntryTime ?s1 = Some t"
    using st(5) Cons.prems(5) by (cases x) auto
  have p1: "length ts' = length xs" using Cons.prems(1) ts by simp
  have p2: "\<forall>k. Key k \<in> set xs \<longrightarrow> k \<noteq> []" using Cons.prems(2) by simp
  have p3: "successively (\<lambda>a b. b - a \<le> timeLimit ?s1) ts'"
    using Cons.prems(3) ts st(3) by (cases ts') simp_all
  have p4: "ts' \<noteq> [] \<longrightarrow> checkTime (hd ts') ?s1 = ?s1"
  proof
    assume "ts' \<noteq> []"
    then have "hd ts' - t \<le> timeLimit s" using Cons.prems(3) ts by (cases ts') simp_all
    then show "checkTime (hd ts') ?s1 = ?s1"
      using l1 st(3) by (intro checkTime_next) auto
  qed
  have p5: "\<forall>i. Button i \<in> set xs \<longrightarrow> now ?s1 = None" using Cons.prems(5) st(4) by simp
  have p6: "\<forall>n. 0 < n \<and> n \<le> length xs \<longrightarrow>
           join '' '' (map toString (entries ?s1 @ take n xs)) \<noteq> pattern ?s1"
  proof (intro allI impI)
    fix n assume n: "0 < n \<and> n \<le> length xs"
    then have "join '' '' (map toString (entries s @ take (Suc n) (x # xs))) \<noteq> pattern s"
      using Cons.prems(6) [rule_format, of "Suc n"] by simp
    then show "join '' '' (map toString (entries ?s1 @ take n xs)) \<noteq> pattern ?s1"
      using st(1,2) by simp
  qed
  note ih = Cons.IH [OF p1 p2 p3 p4 p5 p6]
  have e: "(xs = []) = (ts' = [])" using p1 by auto
  show ?case
  proof (cases "xs = []")
    case True
    then show ?thesis using ts e st(1,2,3) c1 l1 by simp
  next
    case False
    then show ?thesis using ts e ih st(1,2,3) c1 by simp
  qed
qed


lemma successively_take: "successively P xs \<Longrightarrow> successively P (take n xs)"
  using successively_append_iff [of P "take n xs" "drop n xs"] by simp

lemma paced_prefix_no_match:
  assumes len: "length ts = length xs" and keys: "\<forall>k. Key k \<in> set xs \<longrightarrow> k \<noteq> []"
    and paced: "successively (\<lambda>a b. b - a \<le> timeLimit s) ts"
    and start: "entries s = [] \<or> (\<exists>l. lastEntryTime s = Some l \<and> hd ts - l > timeLimit s)"
    and nw: "\<forall>i. Button i \<in> set xs \<longrightarrow> now s = None"
    and pat: "join '' '' (map toString xs) = pattern s"
    and n: "0 < n" "n < length xs"
  shows "entries (accepts (take n (zip ts xs)) s) = take n xs
         \<and> loadConfettiCalls (accepts (take n (zip ts xs)) s) = loadConfettiCalls s
         \<and> pattern (accepts (take n (zip ts xs)) s) = pattern s
         \<and> timeLimit (accepts (take n (zip ts xs)) s) = timeLimit s
         \<and> (lastEntryTime (accepts (take n (zip ts xs)) s) = None
              \<or> lastEntryTime (accepts (take n (zip ts xs)) s) = Some (last (take n ts)))"
proof -
  let ?s = "checkTime (hd ts) s"
  have e: "entries ?s = []" using start by (auto simp: checkTime_def split: option.splits)
  have fx: "checkTime (hd ts) ?s = ?s" by (rule checkTime_idem)
  have tk: "take n (zip ts xs) = zip (take n ts) (take n xs)" by (simp add: take_zip)
  have ne: "take n ts \<noteq> []" "take n xs \<noteq> []" using n len by auto
  have hd: "hd (take n ts) = hd ts" using n by (cases ts; cases n) simp_all
  have a1: "length (take n ts) = length (take n xs)" using len by simp
  have a2: "\<forall>k. Key k \<in> set (take n xs) \<longrightarrow> k \<noteq> []" using keys by (auto dest: in_set_takeD)
  have a3: "successively (\<lambda>a b. b - a \<le> timeLimit ?s) (take n ts)"
    using paced by (simp add: successively_take)
  have a4: "take n ts \<noteq> [] \<longrightarrow> checkTime (hd (take n ts)) ?s = ?s" using fx hd by simp
  have a5: "\<forall>i. Button i \<in> set (take n xs) \<longrightarrow> now ?s = None"
    using nw by (auto dest: in_set_takeD)
  have a6: "\<forall>m. 0 < m \<and> m \<le> length (take n xs) \<longrightarrow>
           join '' '' (map toString (entries ?s @ take m (take n xs))) \<noteq> pattern ?s"
  proof (intro allI impI)
    fix m assume m: "0 < m \<and> m \<le> length (take n xs)"
    then have "m < length (map toString xs)" using n by simp
    then have "join '' '' (take m (map toString xs)) \<noteq> join '' '' (map toString xs)"
      using m by (intro join_prefix_neq) simp_all
    moreover have "take m (take n xs) = take m xs" using m n by (simp add: min_def)
    ultimately show "join '' '' (map toString (entries ?s @ take m (take n xs))) \<noteq> pattern ?s"
      using e pat by (simp add: take_map)
  qed
  have same: "accepts (take n (zip ts xs)) ?s = accepts (take n (zip ts xs)) s"
    using accepts_checkTime [of "take n (zip ts xs)" s] ne hd len n
    by (cases ts; cases xs; cases n) simp_all
  show ?thesis
    using accepts_no_match [OF a1 a2 a3 a4 a5 a6] ne e tk same by simp
qed

lemma paced_symbols_match_once:
  assumes ne: "xs \<noteq> []" and len: "length ts = length xs"
    and keys: "\<forall>k. Key k \<in> set xs \<longrightarrow> k \<noteq> []"
    and paced: "successively (\<lambda>a b. b - a \<le> timeLimit s) ts"
    and start: "entries s = [] \<or> (\<exists>l. lastEntryTime s = Some l \<and> hd ts - l > timeLimit s)"
    and nw: "\<forall>i. Button i \<in> set xs \<longrightarrow> now s = None"
    and pat: "join '' '' (map toString xs) = pattern s"
  shows "(\<forall>n<length xs.
            loadConfettiCalls (accepts (take n (zip ts xs)) s) = loadConfettiCalls s)
         \<and> loadConfettiCalls (accepts (zip ts xs) s) = Suc (loadConfettiCalls s)"
proof
  show "\<forall>n<length xs.
            loadConfettiCalls (accepts (take n (zip ts xs)) s) = loadConfettiCalls s"
  proof (intro allI impI)
    fix n assume n: "n < length xs"
    show "loadConfettiCalls (accepts (take n (zip ts xs)) s) = loadConfettiCalls s"
    proof (cases "n = 0")
      case True
      then show ?thesis by simp
    next
      case False
      then have "0 < n" by simp
      from paced_prefix_no_match [OF len keys paced start nw pat this n]
      show ?thesis by simp
    qed
  qed
next
  let ?s = "checkTime (hd ts) s"
  let ?es = "zip ts xs"
  have tne: "ts \<noteq> []" using ne len by auto
  have e: "entries ?s = []" using start by (auto simp: checkTime_def split: option.splits)
  have tr: "\<forall>k. last xs = Key k \<longrightarrow> k \<noteq> []" using keys ne by (metis last_in_set)
  have split: "?es = zip (butlast ts) (butlast xs) @ [(last ts, last xs)]"
  proof -
    have "zip (butlast ts @ [last ts]) (butlast xs @ [last xs])
            = zip (butlast ts) (butlast xs) @ [(last ts, last xs)]"
      using len by simp
    then show ?thesis using tne ne by simp
  qed
  show "loadConfettiCalls (accepts ?es s) = Suc (loadConfettiCalls s)"
  proof (cases "butlast xs = []")
    case True
    then obtain x where xs1: "xs = [x]" using ne by (cases xs) (auto split: if_splits)
    then obtain t where ts1: "ts = [t]" using len by (cases ts) auto
    have "accepts ?es s = accept t x ?s"
      using ts1 xs1 by (simp add: accept_checkTime)
    moreover have "loadConfettiCalls (accept t x ?s) =
           (if join '' '' (map toString (entries ?s @ [x])) = pattern ?s
            then Suc (loadConfettiCalls ?s) else loadConfettiCalls ?s)"
    proof (rule accept_step(6))
      show "\<forall>k. x = Key k \<longrightarrow> k \<noteq> []" using keys xs1 by simp
      show "checkTime t ?s = ?s" using ts1 by (simp add: checkTime_idem)
    qed
    ultimately show ?thesis using e pat xs1 by simp
  next
    case False
    let ?n = "length xs - 1"
    let ?mid = "accepts (zip (butlast ts) (butlast xs)) s"
    have n: "0 < ?n" "?n < length xs" using False ne by (cases xs; auto)+
    have bt: "butlast ts \<noteq> []" using False len by (metis length_butlast length_0_conv)
    have tk: "take ?n ?es = zip (butlast ts) (butlast xs)"
      using len by (simp add: take_zip butlast_conv_take)
    have mid: "entries ?mid = butlast xs" "loadConfettiCalls ?mid = loadConfettiCalls s"
      "pattern ?mid = pattern s" "timeLimit ?mid = timeLimit s"
      "lastEntryTime ?mid = None \<or> lastEntryTime ?mid = Some (last (butlast ts))"
      using paced_prefix_no_match [OF len keys paced start nw pat n] tk len
      by (simp_all add: butlast_conv_take)
    have gap: "last ts - last (butlast ts) \<le> timeLimit s"
      using paced successively_append_iff [of "\<lambda>a b. b - a \<le> timeLimit s" "butlast ts" "[last ts]"]
        tne bt by simp
    have ct: "checkTime (last ts) ?mid = ?mid"
      using gap mid(4,5) by (intro checkTime_next) auto
    have "accepts ?es s = accept (last ts) (last xs) ?mid"
      using split by (simp add: accepts_append)
    moreover have "loadConfettiCalls (accept (last ts) (last xs) ?mid) =
           (if join '' '' (map toString (entries ?mid @ [last xs])) = pattern ?mid
            then Suc (loadConfettiCalls ?mid) else loadConfettiCalls ?mid)"
      by (rule accept_step(6) [OF tr ct])
    moreover have "entries ?mid @ [last xs] = xs" using mid(1) ne by simp
    ultimately show ?thesis using mid(2,3) pat by simp
  qed
qed

lemma keyboardInits_accepts:
  "keyboardInits (zip ts (map Some ks)) s = accepts (zip ts (map Key ks)) s"
proof (induction ks arbitrary: ts s)
  case Nil
  then show ?case by simp
next
  case (Cons k ks)
  then show ?case by (cases ts) (simp_all add: accept_def)
qed

lemma paced_entry_matches_once:
  assumes ne: "ks \<noteq> []" and len: "length ts = length ks"
    and keys: "\<forall>k\<in>set ks. k \<noteq> []"
    and paced: "successively (\<lambda>a b. b - a \<le> timeLimit s) ts"
    and start: "entries s = [] \<or> (\<exists>l. lastEntryTime s = Some l \<and> hd ts - l > timeLimit s)"
    and pat: "join '' '' ks = pattern s"
  shows "loadConfettiCalls (keyboardInits (zip ts (map Some ks)) s) = Suc (loadConfettiCalls s)"
proof -
  have "loadConfettiCalls (accepts (zip ts (map Key ks)) s) = Suc (loadConfettiCalls s)"
    using paced_symbols_match_once [of "map Key ks" ts s] assms
    by (auto simp: map_toString_Key)
  then show ?thesis by (simp add: keyboardInits_accepts)
qed

section \<open>What holds in every state\<close>

lemma loadConfetti_inv:
  "now (loadConfetti t s) = now s"
  "\<forall>x\<in>set (intervals s). fst x < nextIntervalId s \<Longrightarrow>
     \<forall>x\<in>set (intervals (loadConfetti t s)). fst x < nextIntervalId (loadConfetti t s)"
  by (auto simp: loadConfetti_def Let_def less_Suc_eq)

lemma keyboardInit_inv:
  "now (keyboardInit t key s) = now s"
  "\<forall>x\<in>set (intervals s). fst x < nextIntervalId s \<Longrightarrow>
     \<forall>x\<in>set (intervals (keyboardInit t key s)). fst x < nextIntervalId (keyboardInit t key s)"
  by (auto simp: keyboardInit_def checkCode_def checkTime_def loadConfetti_def Let_def less_Suc_eq
      split: option.splits)

lemma buttonPressed_inv:
  "now (buttonPressed t i s) = now s"
  "\<forall>x\<in>set (intervals s). fst x < nextIntervalId s \<Longrightarrow>
     \<forall>x\<in>set (intervals (buttonPressed t i s)). fst x < nextIntervalId (buttonPressed t i s)"
  by (auto simp: buttonPressed_def checkTime_def loadConfetti_def Let_def less_Suc_eq
      split: option.splits)

lemma forEachButton_inv:
  "now (forEachButton t s b) = now s"
  "\<forall>x\<in>set (intervals s). fst x < nextIntervalId s \<Longrightarrow>
     \<forall>x\<in>set (intervals (forEachButton t s b)). fst x < nextIntervalId (forEachButton t s b)"
proof -
  show "now (forEachButton t s b) = now s"
    by (simp add: forEachButton_def buttonPressed_inv(1) split: prod.splits)
next
  assume a: "\<forall>x\<in>set (intervals s). fst x < nextIntervalId s"
  obtain i pressed where b: "b = (i, pressed)" by (cases b)
  show "\<forall>x\<in>set (intervals (forEachButton t s b)). fst x < nextIntervalId (forEachButton t s b)"
    using a buttonPressed_inv(2) [where s = "s\<lparr>buttonState := insert i (buttonState s)\<rparr>"
        and t = t and i = i]
    by (simp add: forEachButton_def b)
qed

lemma foldl_forEachButton_inv:
  "now (foldl (forEachButton t) s bs) = now s"
  "\<forall>x\<in>set (intervals s). fst x < nextIntervalId s \<Longrightarrow>
     \<forall>x\<in>set (intervals (foldl (forEachButton t) s bs)).
        fst x < nextIntervalId (foldl (forEachButton t) s bs)"
  by (induction bs arbitrary: s) (simp_all add: forEachButton_inv)

lemma forEachGamepad_inv:
  "now (forEachGamepad t pads s g) = now s"
  "\<forall>x\<in>set (intervals s). fst x < nextIntervalId s \<Longrightarrow>
     \<forall>x\<in>set (intervals (forEachGamepad t pads s g)).
        fst x < nextIntervalId (forEachGamepad t pads s g)"
  by (simp_all add: forEachGamepad_def foldl_forEachButton_inv split: prod.splits option.splits)

lemma foldl_forEachGamepad_inv:
  "now (foldl (forEachGamepad t pads) s gs) = now s"
  "\<forall>x\<in>set (intervals s). fst x < nextIntervalId s \<Longrightarrow>
     \<forall>x\<in>set (intervals (foldl (forEachGamepad t pads) s gs)).
        fst x < nextIntervalId (foldl (forEachGamepad t pads) s gs)"
  by (induction gs arbitrary: s) (simp_all add: forEachGamepad_inv)

lemma readGamepadValues_inv:
  assumes "readGamepadValues this t pads s = Inr s'"
  shows "now s' = now s"
    and "\<forall>x\<in>set (intervals s). fst x < nextIntervalId s \<Longrightarrow>
           \<forall>x\<in>set (intervals s'). fst x < nextIntervalId s'"
proof -
  let ?f = "foldl (forEachGamepad t pads) s (enumerate 0 (gamepadIndexes s))"
  have s': "s' = ?f \<or> s' = ?f\<lparr>frameRequests := Suc (frameRequests ?f)\<rparr>"
    using assms by (auto simp: readGamepadValues_def Let_def split: receiver.splits if_splits)
  show "now s' = now s" using s' by (auto simp: foldl_forEachGamepad_inv(1))
  assume "\<forall>x\<in>set (intervals s). fst x < nextIntervalId s"
  then have "\<forall>x\<in>set (intervals ?f). fst x < nextIntervalId ?f"
    by (rule foldl_forEachGamepad_inv(2))
  then show "\<forall>x\<in>set (intervals s'). fst x < nextIntervalId s'"
    using s' by (elim disjE) simp_all
qed

lemma gamepadConnected_inv:
  assumes "gamepadConnected t pads ev s = Inr s'"
  shows "now s' = now s"
    and "\<forall>x\<in>set (intervals s). fst x < nextIntervalId s \<Longrightarrow>
           \<forall>x\<in>set (intervals s'). fst x < nextIntervalId s'"
proof -
  show "now s' = now s"
    using assms readGamepadValues_inv(1)
    by (cases ev) (auto simp: gamepadConnected_def)
  assume a: "\<forall>x\<in>set (intervals s). fst x < nextIntervalId s"
  show "\<forall>x\<in>set (intervals s'). fst x < nextIntervalId s'"
  proof (cases ev)
    case None
    then show ?thesis using assms a by (simp add: gamepadConnected_def)
  next
    case (Some g)
    then have "readGamepadValues This t pads (s\<lparr>gamepads := setKey (index g) (gamepads s)\<rparr>)
        = Inr s'"
      using assms by (simp add: gamepadConnected_def)
    from readGamepadValues_inv(2) [OF this] a show ?thesis by simp
  qed
qed

lemma fireConfetti_inv:
  "now (fireConfetti t d e s) = now s"
  "\<forall>x\<in>set (intervals s). fst x < nextIntervalId s \<Longrightarrow>
     \<forall>x\<in>set (intervals (fireConfetti t d e s)). fst x < nextIntervalId (fireConfetti t d e s)"
  by (auto simp: fireConfetti_def destroy_def clearInterval_def Let_def)

text \<open>
  Two facts hold in every state the page can bring the element to: \<^verbatim>\<open>this.now\<close> is
  undefined, and the identifier of every active interval is below the next one to be
  issued.
\<close>

lemma dispatch_inv:
  "now (dispatch s e) = now s"
  "\<forall>x\<in>set (intervals s). fst x < nextIntervalId s \<Longrightarrow>
     \<forall>x\<in>set (intervals (dispatch s e)). fst x < nextIntervalId (dispatch s e)"
proof -
  show "now (dispatch s e) = now s"
  proof (cases e)
    case (Gamepadconnected t pads ev)
    then show ?thesis
      by (auto split: sum.splits dest: gamepadConnected_inv(1))
  next
    case (AnimationFrame t pads)
    then show ?thesis
      by (auto simp: animationFrame_def Let_def split: sum.splits dest: readGamepadValues_inv(1))
  qed (auto simp: keyboardInit_inv gamepadDisconnected_def intervalTick_def fireConfetti_inv
      split: option.splits)
next
  assume a: "\<forall>x\<in>set (intervals s). fst x < nextIntervalId s"
  show "\<forall>x\<in>set (intervals (dispatch s e)). fst x < nextIntervalId (dispatch s e)"
  proof (cases e)
    case (Keydown t key)
    then show ?thesis using a keyboardInit_inv(2) [where s = s and t = t and key = key] by simp
  next
    case (Gamepadconnected t pads ev)
    show ?thesis
    proof (cases "gamepadConnected t pads ev s")
      case (Inl err)
      then show ?thesis using a Gamepadconnected by simp
    next
      case (Inr s')
      from gamepadConnected_inv(2) [OF this a] show ?thesis using a Gamepadconnected Inr by simp
    qed
  next
    case (Gamepaddisconnected ev)
    then show ?thesis using a by (simp add: gamepadDisconnected_def split: option.splits)
  next
    case (AnimationFrame t pads)
    then show ?thesis using a
      by (simp add: animationFrame_def readGamepadValues_def Let_def)
  next
    case (IntervalTick t i)
    then show ?thesis using a fireConfetti_inv(2) [where s = s]
      by (simp add: intervalTick_def split: option.splits prod.splits)
  qed
qed

lemma run_inv:
  "now (run es s) = now s"
  "\<forall>x\<in>set (intervals s). fst x < nextIntervalId s \<Longrightarrow>
     \<forall>x\<in>set (intervals (run es s)). fst x < nextIntervalId (run es s)"
  unfolding run_def by (induction es arbitrary: s) (simp_all add: dispatch_inv)

lemma mounted_inv:
  "now (mounted ty p) = None"
  "\<forall>x\<in>set (intervals (mounted ty p)). fst x < nextIntervalId (mounted ty p)"
  by (simp_all add: mounted_def listen_def constructor_def)

section \<open>A match is reported once, by the last symbol\<close>

text \<open>
  C1. Let the symbols \<open>xs\<close>, keys (all truthy) or button indexes, be accepted at the times
  \<open>ts\<close>, every gap between consecutive times at most \<^verbatim>\<open>timeLimit\<close>, and let their
  space-joined serialization equal the pattern. The sequence is entered on an empty buffer
  (the buffer is empty, or the first symbol arrives more than \<^verbatim>\<open>timeLimit\<close> after the last
  entry and clears it), and \<^verbatim>\<open>this.now\<close> is undefined, as it is in every state the element
  reaches (\<open>run_inv\<close>, \<open>mounted_inv\<close>). Then \<^verbatim>\<open>loadConfetti\<close> has not been called after
  any proper prefix of the sequence, and has been called exactly once after the last symbol:
  the match is reported by the handler of the last symbol itself, \<^verbatim>\<open>checkCode\<close> for a key
  and \<^verbatim>\<open>buttonPressed\<close> for a button.
\<close>

theorem match_once_after_last_symbol:
  assumes "xs \<noteq> []" and "length ts = length xs"
    and "\<forall>k. Key k \<in> set xs \<longrightarrow> k \<noteq> []"
    and "successively (\<lambda>a b. b - a \<le> timeLimit s) ts"
    and "entries s = [] \<or> (\<exists>l. lastEntryTime s = Some l \<and> hd ts - l > timeLimit s)"
    and "now s = None"
    and "join '' '' (map toString xs) = pattern s"
  shows "(\<forall>n<length xs.
            loadConfettiCalls (accepts (take n (zip ts xs)) s) = loadConfettiCalls s)
         \<and> loadConfettiCalls (accepts (zip ts xs) s) = Suc (loadConfettiCalls s)"
  using assms by (intro paced_symbols_match_once) simp_all

text \<open>
  The eleven keys of the default pattern, 100 ms apart, on a freshly constructed element,
  and the nine buttons of \<^verbatim>\<open>starpower\<close>, 900 ms apart, on a freshly constructed gamepad
  element: no call before the last symbol, one call after it.
\<close>

theorem match_once_after_last_symbol_witness:
  "loadConfettiCalls (accepts (take 10
        (zip [100, 200, 300, 400, 500, 600, 700, 800, 900, 1000, 1100]
          [Key ''ArrowUp'', Key ''ArrowUp'', Key ''ArrowDown'', Key ''ArrowDown'',
           Key ''ArrowLeft'', Key ''ArrowRight'', Key ''ArrowLeft'', Key ''ArrowRight'',
           Key ''b'', Key ''a'', Key ''Enter'']))
        (constructor 0)) = 0
   \<and> loadConfettiCalls (accepts
        (zip [100, 200, 300, 400, 500, 600, 700, 800, 900, 1000, 1100]
          [Key ''ArrowUp'', Key ''ArrowUp'', Key ''ArrowDown'', Key ''ArrowDown'',
           Key ''ArrowLeft'', Key ''ArrowRight'', Key ''ArrowLeft'', Key ''ArrowRight'',
           Key ''b'', Key ''a'', Key ''Enter''])
        (constructor 0)) = 1
   \<and> loadConfettiCalls (accepts (take 8
        (zip [5000, 5900, 6800, 7700, 8600, 9500, 10400, 11300, 12200]
          [Button 7, Button 1, Button 7, Button 0, Button 7, Button 2, Button 7, Button 3,
           Button 6]))
        ((constructor 0)\<lparr>type := ''gamepad'', pattern := patternMatcher ''starpower''\<rparr>)) = 0
   \<and> loadConfettiCalls (accepts
        (zip [5000, 5900, 6800, 7700, 8600, 9500, 10400, 11300, 12200]
          [Button 7, Button 1, Button 7, Button 0, Button 7, Button 2, Button 7, Button 3,
           Button 6])
        ((constructor 0)\<lparr>type := ''gamepad'', pattern := patternMatcher ''starpower''\<rparr>)) = 1"
proof -
  let ?ks = "[Key ''ArrowUp'', Key ''ArrowUp'', Key ''ArrowDown'', Key ''ArrowDown'',
           Key ''ArrowLeft'', Key ''ArrowRight'', Key ''ArrowLeft'', Key ''ArrowRight'',
           Key ''b'', Key ''a'', Key ''Enter'']"
  let ?kt = "[100, 200, 300, 400, 500, 600, 700, 800, 900, 1000, 1100] :: int list"
  let ?bs = "[Button 7, Button 1, Button 7, Button 0, Button 7, Button 2, Button 7, Button 3,
           Button 6]"
  let ?bt = "[5000, 5900, 6800, 7700, 8600, 9500, 10400, 11300, 12200] :: int list"
  let ?k = "constructor 0"
  let ?g = "(constructor 0)\<lparr>type := ''gamepad'', pattern := patternMatcher ''starpower''\<rparr>"
  have k: "(\<forall>n<length ?ks.
            loadConfettiCalls (accepts (take n (zip ?kt ?ks)) ?k) = loadConfettiCalls ?k)
         \<and> loadConfettiCalls (accepts (zip ?kt ?ks) ?k) = Suc (loadConfettiCalls ?k)"
    by (rule match_once_after_last_symbol)
      (simp_all add: constructor_def patternMatcher_def)
  have g: "(\<forall>n<length ?bs.
            loadConfettiCalls (accepts (take n (zip ?bt ?bs)) ?g) = loadConfettiCalls ?g)
         \<and> loadConfettiCalls (accepts (zip ?bt ?bs) ?g) = Suc (loadConfettiCalls ?g)"
    by (rule match_once_after_last_symbol)
      (simp_all add: constructor_def patternMatcher_def decimal.simps)
  have "10 < length ?ks" "8 < length ?bs" by simp_all
  then have "loadConfettiCalls (accepts (take 10 (zip ?kt ?ks)) ?k) = loadConfettiCalls ?k"
    and "loadConfettiCalls (accepts (take 8 (zip ?bt ?bs)) ?g) = loadConfettiCalls ?g"
    using k g by blast+
  moreover have "loadConfettiCalls ?k = 0" "loadConfettiCalls ?g = 0"
    by (simp_all add: constructor_def)
  ultimately show ?thesis using k g by simp
qed

section \<open>Key-down notifications without a key\<close>

text \<open>
  C9. A key-down notification whose \<^verbatim>\<open>key\<close> is absent or falsy is ignored by
  \<^verbatim>\<open>checkCode\<close>: nothing is appended to the buffer (after \<^verbatim>\<open>keyboardInit\<close> it is what it
  was, or empty), \<^verbatim>\<open>lastEntryTime\<close> is not updated, and no comparison is made, so no
  reaction is started whatever the pattern.
\<close>

theorem falsy_key_ignored:
  "\<not> truthy key \<Longrightarrow>
     checkCode t key s = s
     \<and> (entries (keyboardInit t key s) = entries s \<or> entries (keyboardInit t key s) = [])
     \<and> lastEntryTime (keyboardInit t key s) = lastEntryTime s
     \<and> loadConfettiCalls (keyboardInit t key s) = loadConfettiCalls s
     \<and> intervals (keyboardInit t key s) = intervals s"
  by (simp add: keyboardInit_def checkCode_def checkTime_def split: option.splits)

text \<open>
  An empty key on an element whose pattern is the empty string: the empty buffer equals
  the pattern, yet nothing is started.
\<close>

theorem falsy_key_ignored_witness:
  "\<not> truthy (Some '''')
   \<and> currentCode ((constructor 0)\<lparr>pattern := ''''\<rparr>) = pattern ((constructor 0)\<lparr>pattern := ''''\<rparr>)
   \<and> entries (keyboardInit 100 (Some '''') ((constructor 0)\<lparr>pattern := ''''\<rparr>)) = []
   \<and> lastEntryTime (keyboardInit 100 (Some '''') ((constructor 0)\<lparr>pattern := ''''\<rparr>)) = Some 0
   \<and> loadConfettiCalls (keyboardInit 100 (Some '''') ((constructor 0)\<lparr>pattern := ''''\<rparr>)) = 0"
  using falsy_key_ignored [of "Some ''''" 100 "(constructor 0)\<lparr>pattern := ''''\<rparr>"]
  by (simp add: truthy_def constructor_def currentCode_def)

text \<open>
  C10. A key-down notification with a falsy key still runs \<^verbatim>\<open>checkTime\<close>: when more than
  \<^verbatim>\<open>timeLimit\<close> has passed since the last entry the buffer is cleared and nothing else
  changes; otherwise the state is unchanged.
\<close>

theorem falsy_key_checks_time:
  "\<not> truthy key \<Longrightarrow>
     (lastEntryTime s = Some l \<and> t - l > timeLimit s
        \<longrightarrow> keyboardInit t key s = s\<lparr>entries := []\<rparr>)
     \<and> (lastEntryTime s = Some l \<and> t - l \<le> timeLimit s \<longrightarrow> keyboardInit t key s = s)
     \<and> (lastEntryTime s = None \<longrightarrow> keyboardInit t key s = s)"
  by (simp add: keyboardInit_def checkCode_def checkTime_def)

text \<open>
  After one key at 100 ms: an empty notification at 5000 ms clears the buffer, one at 500 ms
  changes nothing; after a gamepad button (no last entry time) nothing is cleared.
\<close>

theorem falsy_key_checks_time_witness:
  "\<not> truthy None
   \<and> entries (keyboardInit 100 (Some ''a'') (constructor 0)) = [Key ''a'']
   \<and> lastEntryTime (keyboardInit 100 (Some ''a'') (constructor 0)) = Some 100
   \<and> 5000 - 100 > timeLimit (keyboardInit 100 (Some ''a'') (constructor 0))
   \<and> keyboardInit 5000 None (keyboardInit 100 (Some ''a'') (constructor 0))
       = (keyboardInit 100 (Some ''a'') (constructor 0))\<lparr>entries := []\<rparr>
   \<and> 500 - 100 \<le> timeLimit (keyboardInit 100 (Some ''a'') (constructor 0))
   \<and> keyboardInit 500 None (keyboardInit 100 (Some ''a'') (constructor 0))
       = keyboardInit 100 (Some ''a'') (constructor 0)
   \<and> lastEntryTime (buttonPressed 100 7 (constructor 0)) = None
   \<and> keyboardInit 5000 None (buttonPressed 100 7 (constructor 0))
       = buttonPressed 100 7 (constructor 0)"
proof -
  let ?s = "keyboardInit 100 (Some ''a'') (constructor 0)"
  let ?g = "buttonPressed 100 7 (constructor 0)"
  have k: "\<not> truthy None" by (simp add: truthy_def)
  have d: "entries ?s = [Key ''a'']" "lastEntryTime ?s = Some 100" "timeLimit ?s = 1000"
    by (simp_all add: keyboardInit_def checkCode_def checkTime_def truthy_def currentCode_def
        constructor_def patternMatcher_def)
  have g: "lastEntryTime ?g = None"
    by (simp add: buttonPressed_def checkTime_def currentCode_def constructor_def
        patternMatcher_def decimal.simps Let_def)
  show ?thesis
    using falsy_key_checks_time [OF k, of ?s 100 5000] falsy_key_checks_time [OF k, of ?s 100 500]
      falsy_key_checks_time [OF k, of ?g 0 5000] k d g
    by simp
qed

section \<open>Listening and stopping\<close>

text \<open>
  C8. \<^verbatim>\<open>destroy\<close> is idempotent, and on an element none of whose listeners is registered
  (never started, or already stopped) it changes nothing. It is a total function: removing
  a listener that is not registered is not an error.
\<close>

theorem destroy_idempotent:
  "destroy (destroy s) = destroy s
   \<and> ((''keydown'', KeyboardInit) \<notin> documentListeners s
        \<and> (''gamepadconnected'', GamepadConnected) \<notin> windowListeners s
        \<and> (''gamepaddisconnected'', GamepadDisconnected) \<notin> windowListeners s
      \<longrightarrow> destroy s = s)"
  by (simp add: destroy_def)

text \<open>
  A freshly constructed element is left as it is, and stopping a listening element twice
  is stopping it once.
\<close>

theorem destroy_idempotent_witness:
  "(''keydown'', KeyboardInit) \<notin> documentListeners (constructor 0)
   \<and> (''gamepadconnected'', GamepadConnected) \<notin> windowListeners (constructor 0)
   \<and> (''gamepaddisconnected'', GamepadDisconnected) \<notin> windowListeners (constructor 0)
   \<and> destroy (constructor 0) = constructor 0
   \<and> destroy (destroy (listen (constructor 0))) = destroy (listen (constructor 0))"
  using destroy_idempotent [of "constructor 0"] destroy_idempotent [of "listen (constructor 0)"]
  by (simp add: constructor_def)

text \<open>
  C3, as stated, fails: the reaction itself stops the element. With pattern \<^verbatim>\<open>a b\<close> and
  the default duration of 10 s, the keys \<^verbatim>\<open>a\<close>, \<^verbatim>\<open>b\<close> at 100 and 200 ms match and start
  interval 1 with \<^verbatim>\<open>animationEnd = 10200\<close>. The tick of that interval at 10200 ms finds
  \<^verbatim>\<open>timeLeft = 0\<close> and calls \<^verbatim>\<open>destroy\<close>. The pattern entered again at 20000 ms (the
  buffer would be reset and refilled) reaches no listener: the reaction has been started
  once, not twice.
\<close>

theorem stops_listening_counterexample:
  "loadConfettiCalls
     (run [Keydown 100 (Some ''a''), Keydown 200 (Some ''b''), IntervalTick 10200 1,
           Keydown 20000 (Some ''a''), Keydown 20100 (Some ''b'')]
        (mounted ''keyboard'' ''a b'')) = 1
   \<and> documentListeners
     (run [Keydown 100 (Some ''a''), Keydown 200 (Some ''b''), IntervalTick 10200 1,
           Keydown 20000 (Some ''a''), Keydown 20100 (Some ''b'')]
        (mounted ''keyboard'' ''a b'')) = {}"
  by (simp add: run_def mounted_def constructor_def listen_def patternMatcher_def
      keyboardInit_def checkCode_def checkTime_def truthy_def currentCode_def
      loadConfetti_def intervalTick_def fireConfetti_def clearInterval_def destroy_def Let_def)

lemma listeners_keyboardInit [simp]:
  "documentListeners (keyboardInit t key s) = documentListeners s"
  "windowListeners (keyboardInit t key s) = windowListeners s"
  "type (keyboardInit t key s) = type s"
  by (simp_all add: keyboardInit_def checkCode_def checkTime_def loadConfetti_def Let_def
      split: option.splits)

lemma listeners_keyboardInits [simp]:
  "documentListeners (keyboardInits es s) = documentListeners s"
  "windowListeners (keyboardInits es s) = windowListeners s"
  "type (keyboardInits es s) = type s"
  by (induction es s rule: keyboardInits.induct) simp_all

lemma run_Keydowns:
  "(''keydown'', KeyboardInit) \<in> documentListeners s \<Longrightarrow>
     run (map (\<lambda>(t, key). Keydown t key) es) s = keyboardInits es s"
  by (induction es s rule: keyboardInits.induct) (simp_all add: run_def)

lemma intervals_keyboardInit: "\<exists>ex. intervals (keyboardInit t key s) = intervals s @ ex"
  by (simp add: keyboardInit_def checkCode_def checkTime_def loadConfetti_def Let_def
      split: option.splits)

lemma intervals_keyboardInits: "\<exists>ex. intervals (keyboardInits es s) = intervals s @ ex"
proof (induction es s rule: keyboardInits.induct)
  case (1 s)
  then show ?case by simp
next
  case (2 t key es s)
  obtain e1 where "intervals (keyboardInit t key s) = intervals s @ e1"
    using intervals_keyboardInit by blast
  moreover obtain e2 where
    "intervals (keyboardInits es (keyboardInit t key s)) = intervals (keyboardInit t key s) @ e2"
    using 2 by blast
  ultimately show ?case by simp
qed

lemma match_registers_interval:
  assumes "loadConfettiCalls (keyboardInit t key s) = Suc (loadConfettiCalls s)"
  shows "intervals (keyboardInit t key s)
           = intervals s @ [(nextIntervalId s, duration s * 1000, t + duration s * 1000)]"
    and "timer (keyboardInit t key s) = nextIntervalId s"
    and "lastEntryTime (keyboardInit t key s) = Some t"
    and "pattern (keyboardInit t key s) = pattern s"
    and "timeLimit (keyboardInit t key s) = timeLimit s"
    and "loadConfettiCalls (keyboardInit t key s) = Suc (loadConfettiCalls s)"
  using assms
  by (simp_all add: keyboardInit_def checkCode_def checkTime_def loadConfetti_def Let_def
      split: option.splits if_splits)

lemma find_interval:
  assumes "\<forall>x\<in>set xs. fst x < (i::nat)"
  shows "find (\<lambda>(j, d, e). j = i) (xs @ (i, d, e) # ex) = Some (i, d, e)"
  using assms by (induction xs) auto

lemma listeners_fireConfetti:
  "documentListeners (fireConfetti u d e s)
     = (if e \<le> u then documentListeners (destroy s) else documentListeners s)"
  "windowListeners (fireConfetti u d e s)
     = (if e \<le> u then windowListeners (destroy s) else windowListeners s)"
  by (simp_all add: fireConfetti_def destroy_def clearInterval_def Let_def)

lemma listeners_destroy_cong:
  "documentListeners s' = documentListeners s \<Longrightarrow> windowListeners s' = windowListeners s \<Longrightarrow>
     type s' = type s \<Longrightarrow>
     documentListeners (destroy s') = documentListeners (destroy s)
     \<and> windowListeners (destroy s') = windowListeners (destroy s)"
  by (simp add: destroy_def)

lemma tick_after_match:
  assumes fresh: "\<forall>x\<in>set (intervals s). fst x < nextIntervalId s"
    and match: "loadConfettiCalls (keyboardInit t key s) = Suc (loadConfettiCalls s)"
  shows "intervalTick u (timer (keyboardInit t key s)) (keyboardInits es (keyboardInit t key s))
           = fireConfetti u (duration s * 1000) (t + duration s * 1000)
               (keyboardInits es (keyboardInit t key s))"
proof -
  let ?s' = "keyboardInit t key s"
  obtain ex where "intervals (keyboardInits es ?s') = intervals ?s' @ ex"
    using intervals_keyboardInits by blast
  then have "intervals (keyboardInits es ?s')
      = intervals s @ (nextIntervalId s, duration s * 1000, t + duration s * 1000) # ex"
    using match_registers_interval(1) [OF match] by simp
  then have "find (\<lambda>(j, d, e). j = nextIntervalId s) (intervals (keyboardInits es ?s'))
      = Some (nextIntervalId s, duration s * 1000, t + duration s * 1000)"
    using find_interval [OF fresh] by simp
  then show ?thesis
    using match_registers_interval(2) [OF match] by (simp add: intervalTick_def)
qed

lemma listeners_buttonPressed [simp]:
  "documentListeners (buttonPressed t i s) = documentListeners s"
  "windowListeners (buttonPressed t i s) = windowListeners s"
  by (simp_all add: buttonPressed_def checkTime_def loadConfetti_def Let_def
      split: option.splits)

text \<open>
  C3, amended. Let a key handled at time \<open>t\<close> match, so that the reaction is started (the
  identifiers of the active intervals being below the next one, as in every state the
  element reaches). Neither that key nor any keys handled afterwards remove a listener, and
  handling a button removes none. The reaction's interval is the one \<^verbatim>\<open>this.timer\<close> names:
  a tick of it before \<open>t + duration * 1000\<close> removes no listener, and a tick of it at or
  after \<open>t + duration * 1000\<close> leaves the listeners as \<^verbatim>\<open>destroy\<close> does. As long as the
  key-down listener is registered, the pattern entered again, its first key more than
  \<^verbatim>\<open>timeLimit\<close> after the match (which resets the buffer) and every later gap at most
  \<^verbatim>\<open>timeLimit\<close>, starts the reaction a second time.
\<close>

theorem listening_until_animation_ends:
  assumes "\<forall>x\<in>set (intervals s). fst x < nextIntervalId s"
    and "loadConfettiCalls (keyboardInit t key s) = Suc (loadConfettiCalls s)"
  shows "documentListeners (keyboardInits es (keyboardInit t key s)) = documentListeners s
    \<and> windowListeners (keyboardInits es (keyboardInit t key s)) = windowListeners s
    \<and> documentListeners (buttonPressed u i s) = documentListeners s
    \<and> windowListeners (buttonPressed u i s) = windowListeners s
    \<and> (u < t + duration s * 1000 \<longrightarrow>
          documentListeners (intervalTick u (timer (keyboardInit t key s))
            (keyboardInits es (keyboardInit t key s))) = documentListeners s
          \<and> windowListeners (intervalTick u (timer (keyboardInit t key s))
            (keyboardInits es (keyboardInit t key s))) = windowListeners s)
    \<and> (t + duration s * 1000 \<le> u \<longrightarrow>
          documentListeners (intervalTick u (timer (keyboardInit t key s))
            (keyboardInits es (keyboardInit t key s))) = documentListeners (destroy s)
          \<and> windowListeners (intervalTick u (timer (keyboardInit t key s))
            (keyboardInits es (keyboardInit t key s))) = windowListeners (destroy s))
    \<and> ((''keydown'', KeyboardInit) \<in> documentListeners s
          \<and> ks \<noteq> [] \<and> length ts = length ks \<and> (\<forall>k\<in>set ks. k \<noteq> [])
          \<and> successively (\<lambda>a b. b - a \<le> timeLimit s) ts
          \<and> hd ts - t > timeLimit s
          \<and> join '' '' ks = pattern s
        \<longrightarrow> loadConfettiCalls (run (map2 Keydown ts (map Some ks)) (keyboardInit t key s))
              = Suc (Suc (loadConfettiCalls s)))"
proof (intro conjI impI)
  let ?s' = "keyboardInit t key s"
  let ?s'' = "keyboardInits es ?s'"
  note tick = tick_after_match [OF assms, of u es]
  note dc = listeners_destroy_cong [of ?s'' s]
  show "documentListeners ?s'' = documentListeners s" "windowListeners ?s'' = windowListeners s"
    "documentListeners (buttonPressed u i s) = documentListeners s"
    "windowListeners (buttonPressed u i s) = windowListeners s"
    by simp_all
  {
    assume "u < t + duration s * 1000"
    then show "documentListeners (intervalTick u (timer ?s') ?s'') = documentListeners s"
      and "windowListeners (intervalTick u (timer ?s') ?s'') = windowListeners s"
      by (simp_all add: tick listeners_fireConfetti)
  }
  {
    assume "t + duration s * 1000 \<le> u"
    then show "documentListeners (intervalTick u (timer ?s') ?s'') = documentListeners (destroy s)"
      and "windowListeners (intervalTick u (timer ?s') ?s'') = windowListeners (destroy s)"
      using dc by (simp_all add: tick listeners_fireConfetti)
  }
  assume a: "(''keydown'', KeyboardInit) \<in> documentListeners s
          \<and> ks \<noteq> [] \<and> length ts = length ks \<and> (\<forall>k\<in>set ks. k \<noteq> [])
          \<and> successively (\<lambda>a b. b - a \<le> timeLimit s) ts
          \<and> hd ts - t > timeLimit s
          \<and> join '' '' ks = pattern s"
  note m = match_registers_interval [OF assms(2)]
  have "loadConfettiCalls (keyboardInits (zip ts (map Some ks)) ?s') = Suc (loadConfettiCalls ?s')"
  proof (rule paced_entry_matches_once)
    show "entries ?s' = [] \<or> (\<exists>l. lastEntryTime ?s' = Some l \<and> hd ts - l > timeLimit ?s')"
      using a m(3,5) by simp
  qed (use a m(4,5) in simp_all)
  then show "loadConfettiCalls (run (map2 Keydown ts (map Some ks)) ?s')
              = Suc (Suc (loadConfettiCalls s))"
    using a m(6) run_Keydowns [of ?s' "zip ts (map Some ks)"] by simp
qed

text \<open>
  Pattern \<^verbatim>\<open>a b\<close>, matched at 200 ms with the default duration of 10 s: after one more
  key, the tick of interval 1 at 10199 ms keeps the listener and the tick at 10200 ms
  removes it; entered again at 3000 ms, the pattern matches a second time.
\<close>

theorem listening_until_animation_ends_witness:
  "documentListeners
     (run [Keydown 100 (Some ''a''), Keydown 200 (Some ''b''), Keydown 300 (Some ''x''),
           IntervalTick 10199 1]
        (mounted ''keyboard'' ''a b'')) = {(''keydown'', KeyboardInit)}
   \<and> documentListeners
     (run [Keydown 100 (Some ''a''), Keydown 200 (Some ''b''), Keydown 300 (Some ''x''),
           IntervalTick 10200 1]
        (mounted ''keyboard'' ''a b'')) = {}
   \<and> loadConfettiCalls
     (run [Keydown 100 (Some ''a''), Keydown 200 (Some ''b'')]
        (mounted ''keyboard'' ''a b'')) = 1
   \<and> loadConfettiCalls
     (run [Keydown 100 (Some ''a''), Keydown 200 (Some ''b''),
           Keydown 3000 (Some ''a''), Keydown 3100 (Some ''b'')]
        (mounted ''keyboard'' ''a b'')) = 2"
proof -
  let ?m = "mounted ''keyboard'' ''a b''"
  let ?s = "keyboardInit 100 (Some ''a'') ?m"
  let ?s' = "keyboardInit 200 (Some ''b'') ?s"
  have d: "documentListeners ?s = {(''keydown'', KeyboardInit)}" "loadConfettiCalls ?s = 0"
    "timeLimit ?s = 1000" "pattern ?s = ''a b''" "duration ?s = 10" "intervals ?s = []"
    "documentListeners (destroy ?s) = {}" "documentListeners ?m = {(''keydown'', KeyboardInit)}"
    by (simp_all add: mounted_def constructor_def listen_def patternMatcher_def
      keyboardInit_def checkCode_def checkTime_def truthy_def currentCode_def
      loadConfetti_def destroy_def Let_def)
  have d': "loadConfettiCalls ?s' = 1" "timer ?s' = 1"
    by (simp_all add: mounted_def constructor_def listen_def patternMatcher_def
      keyboardInit_def checkCode_def checkTime_def truthy_def currentCode_def
      loadConfetti_def destroy_def Let_def)
  have fresh: "\<forall>x\<in>set (intervals ?s). fst x < nextIntervalId ?s" by (simp add: d)
  have match: "loadConfettiCalls ?s' = Suc (loadConfettiCalls ?s)" by (simp add: d d')
  have before: "documentListeners (intervalTick 10199 (timer ?s')
      (keyboardInits [(300, Some ''x'')] ?s')) = documentListeners ?s"
    using listening_until_animation_ends [OF fresh match, where es = "[(300, Some ''x'')]" and u = 10199]
    by (simp add: d)
  have after: "documentListeners (intervalTick 10200 (timer ?s')
      (keyboardInits [(300, Some ''x'')] ?s')) = documentListeners (destroy ?s)"
    using listening_until_animation_ends [OF fresh match, where es = "[(300, Some ''x'')]" and u = 10200]
    by (simp add: d)
  have again: "loadConfettiCalls (run (map2 Keydown [3000, 3100] (map Some [''a'', ''b''])) ?s')
      = Suc (Suc (loadConfettiCalls ?s))"
    using listening_until_animation_ends [OF fresh match, where ks = "[''a'', ''b'']" and ts = "[3000, 3100]"]
    by (simp add: d)
  show ?thesis
    using before after again by (simp add: run_def d d')
qed

section \<open>Gamepad sampling and connection\<close>

lemmas gamepad_eval =
  run_def mounted_def constructor_def listen_def patternMatcher_def pad_def
  gamepadConnected_def gamepadDisconnected_def readGamepadValues_def animationFrame_def
  forEachGamepad_def forEachButton_def buttonPressed_def checkTime_def currentCode_def
  gamepadIndexes_def setKey_def deleteKey_def decimal.simps loadConfetti_def Let_def

text \<open>
  On the keyboard path a key that arrives more than \<^verbatim>\<open>timeLimit\<close> after the last entry
  starts a fresh buffer of length 1.
\<close>

lemma keyboardInit_resets_after_gap:
  "lastEntryTime s = Some l \<Longrightarrow> t - l > timeLimit s \<Longrightarrow> k \<noteq> [] \<Longrightarrow>
     entries (keyboardInit t (Some k) s) = [Key k]
     \<and> lastEntryTime (keyboardInit t (Some k) s) = Some t"
  by (simp add: keyboardInit_def checkCode_def checkTime_def truthy_def loadConfetti_def Let_def)

text \<open>
  C2 on the gamepad path: \<^verbatim>\<open>buttonPressed\<close> stores \<^verbatim>\<open>this.now\<close>, which is undefined, in
  \<^verbatim>\<open>lastEntryTime\<close>, so after the first button no later call of \<^verbatim>\<open>checkTime\<close> clears
  the buffer. Button 7 sampled at 100 ms and button 1 sampled at 5000 ms (the time limit is
  1000 ms) are both in the buffer.
\<close>

theorem gamepad_buffer_not_reset:
  "entries
     (run [Gamepadconnected 100 [Some (pad 0 [7])] (Some (pad 0 [7])),
           Gamepadconnected 5000 [Some (pad 0 [1]), Some (pad 1 [])] (Some (pad 1 []))]
        (mounted ''gamepad'' ''starpower'')) = [Button 7, Button 1]
   \<and> lastEntryTime
     (run [Gamepadconnected 100 [Some (pad 0 [7])] (Some (pad 0 [7]))]
        (mounted ''gamepad'' ''starpower'')) = None
   \<and> entries (buttonPressed 5000 1 (buttonPressed 100 7 (constructor 0)))
       = [Button 7, Button 1]"
  by (simp add: gamepad_eval)

text \<open>
  C4: the edge state is keyed by the button index alone. While device 0 holds button 7, a
  press of button 7 on device 1 emits no symbol; and with an idle device 1 connected, which
  clears the flag in every pass, the held button 7 of device 0 is emitted again two passes
  later.
\<close>

theorem edge_state_shared_between_devices:
  "entries
     (run [Gamepadconnected 100 [Some (pad 0 [7])] (Some (pad 0 [7])),
           Gamepadconnected 200 [Some (pad 0 [7]), Some (pad 1 [7])] (Some (pad 1 [7]))]
        (mounted ''gamepad'' ''starpower'')) = [Button 7]
   \<and> entries
     (run [Gamepadconnected 100 [Some (pad 0 [7])] (Some (pad 0 [7])),
           Gamepadconnected 200 [Some (pad 0 [7]), Some (pad 1 [])] (Some (pad 1 [])),
           Gamepadconnected 300 [Some (pad 0 [7]), Some (pad 1 []), Some (pad 2 [])]
             (Some (pad 2 []))]
        (mounted ''gamepad'' ''starpower'')) = [Button 7, Button 7]"
  by (simp add: gamepad_eval)

text \<open>
  C6: a pass run by \<^verbatim>\<open>gamepadConnected\<close> requests an animation frame while a device is
  connected, but the callback it hands over is the unbound method: run by the host it
  throws before sampling or rescheduling. After the first frame no callback is pending
  although device 0 is still connected, and the button pressed meanwhile is not seen.
\<close>

theorem polling_stops_after_first_frame:
  "frameRequests
     (run [Gamepadconnected 100 [Some (pad 0 [])] (Some (pad 0 []))]
        (mounted ''gamepad'' ''starpower'')) = 1
   \<and> gamepads
     (run [Gamepadconnected 100 [Some (pad 0 [])] (Some (pad 0 [])),
           AnimationFrame 116 [Some (pad 0 [7])]]
        (mounted ''gamepad'' ''starpower'')) = [0]
   \<and> frameRequests
     (run [Gamepadconnected 100 [Some (pad 0 [])] (Some (pad 0 [])),
           AnimationFrame 116 [Some (pad 0 [7])]]
        (mounted ''gamepad'' ''starpower'')) = 0
   \<and> uncaught
     (run [Gamepadconnected 100 [Some (pad 0 [])] (Some (pad 0 [])),
           AnimationFrame 116 [Some (pad 0 [7])]]
        (mounted ''gamepad'' ''starpower'')) = [TypeError]
   \<and> entries
     (run [Gamepadconnected 100 [Some (pad 0 [])] (Some (pad 0 [])),
           AnimationFrame 116 [Some (pad 0 [7])]]
        (mounted ''gamepad'' ''starpower'')) = []"
  by (simp add: gamepad_eval)

text \<open>
  With the element as receiver a pass does not throw, leaves the set of connected devices
  as it is, and requests a frame exactly when that set is not empty.
\<close>

lemma forEachButton_frame [simp]:
  "gamepads (forEachButton t s b) = gamepads s"
  "frameRequests (forEachButton t s b) = frameRequests s"
  by (simp_all add: forEachButton_def buttonPressed_def checkTime_def loadConfetti_def Let_def
      split: prod.splits option.splits)

lemma foldl_forEachButton_frame [simp]:
  "gamepads (foldl (forEachButton t) s bs) = gamepads s"
  "frameRequests (foldl (forEachButton t) s bs) = frameRequests s"
  by (induction bs arbitrary: s) simp_all

lemma forEachGamepad_frame [simp]:
  "gamepads (forEachGamepad t pads s g) = gamepads s"
  "frameRequests (forEachGamepad t pads s g) = frameRequests s"
  by (simp_all add: forEachGamepad_def split: prod.splits option.splits)

lemma foldl_forEachGamepad_frame [simp]:
  "gamepads (foldl (forEachGamepad t pads) s gs) = gamepads s"
  "frameRequests (foldl (forEachGamepad t pads) s gs) = frameRequests s"
  by (induction gs arbitrary: s) simp_all

lemma readGamepadValues_This_frame:
  "\<exists>s'. readGamepadValues This t pads s = Inr s' \<and> gamepads s' = gamepads s
     \<and> frameRequests s' = (if gamepads s = [] then frameRequests s else Suc (frameRequests s))"
  by (simp add: readGamepadValues_def gamepadIndexes_def Let_def)

lemma readGamepadValues_Undefined:
  "readGamepadValues Undefined t pads s = Inl TypeError"
  by (simp add: readGamepadValues_def)

text \<open>
  C7, as stated, fails: \<^verbatim>\<open>gamepadDisconnected\<close> does not touch \<^verbatim>\<open>buttonState\<close>. Device 0
  is sampled with button 7 held and is then disconnected: its index is gone, the flag of
  button 7 is still set.
\<close>

theorem edge_state_kept_on_disconnect_counterexample:
  "buttonState
     (run [Gamepadconnected 100 [Some (pad 0 [7])] (Some (pad 0 [7])),
           Gamepaddisconnected (Some (pad 0 [7]))]
        (mounted ''gamepad'' ''starpower'')) = {7}
   \<and> gamepads
     (run [Gamepadconnected 100 [Some (pad 0 [7])] (Some (pad 0 [7])),
           Gamepaddisconnected (Some (pad 0 [7]))]
        (mounted ''gamepad'' ''starpower'')) = []"
  by (simp add: gamepad_eval)

text \<open>
  C7, amended. A disconnection notification that carries a gamepad removes that gamepad's
  index from \<^verbatim>\<open>gamepads\<close> and changes nothing else; \<^verbatim>\<open>buttonState\<close> is left as it is by
  every disconnection notification, and a notification without a gamepad changes nothing.
\<close>

theorem gamepadDisconnected_effect:
  "gamepadDisconnected (Some g) s = s\<lparr>gamepads := removeAll (index g) (gamepads s)\<rparr>
   \<and> index g \<notin> set (gamepads (gamepadDisconnected (Some g) s))
   \<and> buttonState (gamepadDisconnected ev s) = buttonState s
   \<and> gamepadDisconnected None s = s"
  by (simp add: gamepadDisconnected_def deleteKey_def split: option.splits)

end
